theory Spec2Isabelle
  imports Complex_Main
begin

section \<open>JavaScript values that flow through the category pipeline\<close>

text \<open>
  A mouth category is whatever \<^verbatim>\<open>getPhonemeCategory\<close> returns and
  \<^verbatim>\<open>updateMouthSprite\<close> receives. In the source these are JavaScript values:
  normally strings, \<^verbatim>\<open>undefined\<close> when an array is read out of range, and, because
  \<^verbatim>\<open>PHONEME_MAP\<close> is a plain object literal, a member inherited from
  \<^verbatim>\<open>Object.prototype\<close> when the label happens to be the name of such a member.
  Numbers are modelled as exact reals: IEEE rounding of the arithmetic is not modelled.
\<close>

datatype jsval = Undefined | Str string | ProtoMember string

fun truthy :: "jsval \<Rightarrow> bool" where
  "truthy Undefined = False"
| "truthy (Str s) = (s \<noteq> [])"
| "truthy (ProtoMember k) = True"

definition js_or :: "jsval \<Rightarrow> jsval \<Rightarrow> jsval" where
  "js_or a b = (if truthy a then a else b)"

section \<open>lipsync.js: phoneme mapping and smoothing\<close>

record phoneme_event =
  phoneme :: "string option"
  start :: real
  duration :: real

definition SMOOTHING_FACTOR :: real where
  "SMOOTHING_FACTOR = 7 / 10"

text \<open>The own properties of the object literal \<^verbatim>\<open>PHONEME_MAP\<close>, in source order.\<close>

definition PHONEME_MAP :: "(string \<times> string) list" where
  "PHONEME_MAP =
    [(''A'', ''a''), (''E'', ''e''), (''I'', ''a''), (''O'', ''o''), (''U'', ''u''),
     (''M'', ''m''), (''B'', ''m''), (''P'', ''m''), (''N'', ''m''),
     (''F'', ''f''), (''V'', ''f''), (''T'', ''f''), (''D'', ''f''),
     (''L'', ''a''), (''K'', ''closed''), (''G'', ''closed''), (''S'', ''f''), (''Z'', ''f'')]"

text \<open>
  The property names every object literal inherits from \<^verbatim>\<open>Object.prototype\<close>.
  \<^verbatim>\<open>PHONEME_MAP[k]\<close> finds them through the prototype chain; all of them are
  functions or objects, hence truthy.
\<close>

definition object_prototype_names :: "string list" where
  "object_prototype_names =
    [''constructor'', ''hasOwnProperty'', ''isPrototypeOf'', ''propertyIsEnumerable'',
     ''toLocaleString'', ''toString'', ''valueOf'', ''__proto__'',
     ''__defineGetter__'', ''__defineSetter__'', ''__lookupGetter__'', ''__lookupSetter__'']"

definition PHONEME_MAP_get :: "string \<Rightarrow> jsval" where
  "PHONEME_MAP_get k =
    (case map_of PHONEME_MAP k of
       Some v \<Rightarrow> Str v
     | None \<Rightarrow> if k \<in> set object_prototype_names then ProtoMember k else Undefined)"

text \<open>\<^verbatim>\<open>phoneme.phoneme || 'rest'\<close>: a missing or empty label reads as rest.\<close>

definition phonemeChar :: "phoneme_event \<Rightarrow> string" where
  "phonemeChar ev = (case phoneme ev of None \<Rightarrow> ''rest'' | Some l \<Rightarrow> if l = [] then ''rest'' else l)"

text \<open>
  The category before smoothing: the table lookup with its \<^verbatim>\<open>|| 'closed'\<close> default,
  overridden by idle for the labels rest and silent.
\<close>

definition mapped_category :: "phoneme_event \<Rightarrow> jsval" where
  "mapped_category ev =
    (let category = js_or (PHONEME_MAP_get (phonemeChar ev)) (Str ''closed'')
     in if phonemeChar ev = ''rest'' \<or> phonemeChar ev = ''silent'' then Str ''idle'' else category)"

text \<open>
  \<^verbatim>\<open>getPhonemeCategory\<close> with the module variable \<^verbatim>\<open>phonemeHistory\<close> passed in
  and returned, the constant \<^verbatim>\<open>SMOOTHING_FACTOR\<close> as the parameter \<open>sf\<close>, and \<open>rnd\<close>
  the value \<^verbatim>\<open>Math.random()\<close> yields if the call reaches it. An absent event returns
  before the history is touched.
\<close>

definition getPhonemeCategory_sf ::
  "real \<Rightarrow> real \<Rightarrow> phoneme_event option \<Rightarrow> jsval list \<Rightarrow> jsval \<times> jsval list" where
  "getPhonemeCategory_sf sf rnd ph phonemeHistory =
    (case ph of
       None \<Rightarrow> (Str ''idle'', phonemeHistory)
     | Some ev \<Rightarrow>
        (let category = mapped_category ev;
             previousCategory = (if phonemeHistory = [] then Undefined else last phonemeHistory);
             category =
               (if truthy previousCategory \<and> previousCategory \<noteq> category
                then (let shouldSwitch = (rnd > 1 - sf)
                      in if \<not> shouldSwitch then previousCategory else category)
                else category);
             pushed = phonemeHistory @ [category];
             shifted = (if length pushed > 10 then tl pushed else pushed)
         in (category, shifted)))"

definition getPhonemeCategory ::
  "real \<Rightarrow> phoneme_event option \<Rightarrow> jsval list \<Rightarrow> jsval \<times> jsval list" where
  "getPhonemeCategory = getPhonemeCategory_sf SMOOTHING_FACTOR"

definition resetPhonemeHistory :: "jsval list \<Rightarrow> jsval list" where
  "resetPhonemeHistory phonemeHistory = []"


text \<open>An event carrying a label, shaped like those of \<^verbatim>\<open>simulatePhonemeSequence\<close>.\<close>

definition labelled :: "string \<Rightarrow> phoneme_event" where
  "labelled l = \<lparr>phoneme = Some l, start = 0, duration = 1 / 10\<rparr>"

section \<open>animation.js: mouth sprites and the blink machine\<close>

record sprite_data =
  visible :: bool
  loaded :: bool
  assetUrl :: "string option"

text \<open>
  \<^verbatim>\<open>animationState\<close>. The two \<^verbatim>\<open>Map\<close>s are association lists in insertion order
  (a \<^verbatim>\<open>Map\<close> iterates in that order); the \<^verbatim>\<open>visible\<close> flag of the PIXI object is
  kept inside the entry.
\<close>

record animation_state =
  mouthSprites :: "(string \<times> sprite_data) list"
  eyeSprites :: "(string \<times> sprite_data) list"
  bodySprite :: "sprite_data option"
  currentMouthType :: jsval
  currentEyeState :: string
  blinkTimer :: real
  blinkDuration :: real
  isBlinking :: bool
  nextBlinkTime :: real
  timeSinceLastBlink :: real

definition mouthTypes :: "string list" where
  "mouthTypes = [''idle'', ''a'', ''e'', ''o'', ''u'', ''closed'', ''m'', ''f'']"

definition placeholder :: sprite_data where
  "placeholder = \<lparr>visible = True, loaded = False, assetUrl = None\<rparr>"

text \<open>
  The module's initial \<^verbatim>\<open>animationState\<close>; \<open>rnd\<close> is the draw of
  \<^verbatim>\<open>Math.random()\<close> in the initialiser of \<^verbatim>\<open>nextBlinkTime\<close>.
\<close>

definition animationState0 :: "real \<Rightarrow> animation_state" where
  "animationState0 rnd =
    \<lparr>mouthSprites = [], eyeSprites = [], bodySprite = None,
     currentMouthType = Str ''idle'', currentEyeState = ''open'',
     blinkTimer = 0, blinkDuration = 15 / 100, isBlinking = False,
     nextBlinkTime = rnd * 3 + 2, timeSinceLastBlink = 0\<rparr>"

text \<open>
  \<^verbatim>\<open>initAnimation\<close>: one placeholder per mouth type (all left visible), the two eye
  placeholders with only the open one visible, and the body placeholder.
\<close>

definition initAnimation :: "animation_state \<Rightarrow> animation_state" where
  "initAnimation s =
    s\<lparr>mouthSprites := map (\<lambda>type. (type, placeholder)) mouthTypes,
      eyeSprites := [(''open'', placeholder), (''closed'', placeholder\<lparr>visible := False\<rparr>)],
      bodySprite := Some placeholder\<rparr>"

text \<open>\<^verbatim>\<open>Map.prototype.get\<close> on a map whose keys are strings.\<close>

definition Map_get :: "(string \<times> 'v) list \<Rightarrow> jsval \<Rightarrow> 'v option" where
  "Map_get m key = (case key of Str k \<Rightarrow> map_of m k | _ \<Rightarrow> None)"

text \<open>
  What a call does besides changing \<^verbatim>\<open>animationState\<close>: the writes to a sprite's
  \<^verbatim>\<open>visible\<close> property (the signal to the renderer) and console warnings.
\<close>

datatype effect = SetVisible string bool | ConsoleWarn jsval

text \<open>\<^verbatim>\<open>updateMouthSprite(mouthLayer, phonemeCategory)\<close>; the layer argument is unused.\<close>

definition updateMouthSprite :: "jsval \<Rightarrow> animation_state \<Rightarrow> effect list \<times> animation_state" where
  "updateMouthSprite phonemeCategory s =
    (if \<not> truthy phonemeCategory \<or> currentMouthType s = phonemeCategory then ([], s)
     else case Map_get (mouthSprites s) phonemeCategory of
       None \<Rightarrow> ([ConsoleWarn phonemeCategory], s)
     | Some mouthData \<Rightarrow>
         (map (\<lambda>(type, d). SetVisible type (Str type = phonemeCategory)) (mouthSprites s),
          s\<lparr>mouthSprites :=
               map (\<lambda>(type, d). (type, d\<lparr>visible := (Str type = phonemeCategory)\<rparr>)) (mouthSprites s),
            currentMouthType := phonemeCategory\<rparr>))"

text \<open>The visibility writes among the effects of a call, in order.\<close>

definition visibility_writes :: "effect list \<Rightarrow> (string \<times> bool) list" where
  "visibility_writes es = concat (map (\<lambda>e. case e of SetVisible k b \<Rightarrow> [(k, b)] | ConsoleWarn c \<Rightarrow> []) es)"

text \<open>
  The shared tail of the eye functions: look both eye sprites up and, only if both exist,
  assign their \<^verbatim>\<open>visible\<close> flags.
\<close>

definition show_eyes ::
  "bool \<Rightarrow> bool \<Rightarrow> (string \<times> sprite_data) list \<Rightarrow> (string \<times> sprite_data) list" where
  "show_eyes open_visible closed_visible es =
    (case (map_of es ''open'', map_of es ''closed'') of
       (Some openEye, Some closedEye) \<Rightarrow>
         map (\<lambda>(k, d). (k, if k = ''open'' then d\<lparr>visible := open_visible\<rparr>
                           else if k = ''closed'' then d\<lparr>visible := closed_visible\<rparr>
                           else d)) es
     | _ \<Rightarrow> es)"

text \<open>
  \<^verbatim>\<open>updateEyeSprite(eyeLayer)\<close>, one render tick of 1/60 s; \<open>rnd\<close> is the draw of
  \<^verbatim>\<open>Math.random()\<close> used if this tick finishes a blink.
\<close>

definition updateEyeSprite :: "real \<Rightarrow> animation_state \<Rightarrow> animation_state" where
  "updateEyeSprite rnd s0 =
    (let s = s0\<lparr>timeSinceLastBlink := timeSinceLastBlink s0 + 1 / 60\<rparr> in
     if isBlinking s then
       (let s = s\<lparr>blinkTimer := blinkTimer s + 1 / 60\<rparr> in
        if blinkTimer s > blinkDuration s
        then s\<lparr>isBlinking := False, blinkTimer := 0, nextBlinkTime := rnd * 3 + 2,
               timeSinceLastBlink := 0, eyeSprites := show_eyes True False (eyeSprites s)\<rparr>
        else s\<lparr>eyeSprites := show_eyes False True (eyeSprites s)\<rparr>)
     else if timeSinceLastBlink s \<ge> nextBlinkTime s
     then s\<lparr>isBlinking := True, blinkTimer := 0\<rparr>
     else s)"


definition triggerBlink :: "animation_state \<Rightarrow> animation_state" where
  "triggerBlink s = s\<lparr>isBlinking := True, blinkTimer := 0, timeSinceLastBlink := 0\<rparr>"








section \<open>audio.js: capture and the frame buffer\<close>

record audio_frame =
  data :: "real list"
  timestamp :: int
  sampleRate :: nat

text \<open>
  \<^verbatim>\<open>window.audioBufferQueue\<close> is a reference: unset before the first start, the very
  array \<^verbatim>\<open>audioBuffers\<close> after \<^verbatim>\<open>startMicrophone\<close>, and a fresh array of its own
  after \<^verbatim>\<open>stopMicrophone\<close>.
\<close>

datatype queue_ref = NoQueue | SharedQueue | OwnQueue "audio_frame list"

record audio_state =
  audioContext :: "nat option"
  mediaStream :: bool
  scriptProcessor :: bool
  analyser :: bool
  isAudioRunning :: bool
  audioBuffers :: "audio_frame list"
  audioBufferQueue :: queue_ref

definition window_queue :: "audio_state \<Rightarrow> audio_frame list option" where
  "window_queue s =
    (case audioBufferQueue s of
       NoQueue \<Rightarrow> None
     | SharedQueue \<Rightarrow> Some (audioBuffers s)
     | OwnQueue q \<Rightarrow> Some q)"

text \<open>
  The body of \<^verbatim>\<open>scriptProcessor.onaudioprocess\<close>: copy the samples, push the frame,
  and shift once if more than 15 frames are held. Reading \<^verbatim>\<open>audioContext.sampleRate\<close>
  needs the context; without one the callback throws before the push.
\<close>

definition onaudioprocess :: "real list \<Rightarrow> int \<Rightarrow> audio_state \<Rightarrow> audio_state" where
  "onaudioprocess inputData now s =
    (case audioContext s of
       None \<Rightarrow> s
     | Some rate \<Rightarrow>
        (let pushed = audioBuffers s @ [\<lparr>data = inputData, timestamp = now, sampleRate = rate\<rparr>]
         in s\<lparr>audioBuffers := (if length pushed > 15 then tl pushed else pushed)\<rparr>))"

text \<open>The audio graph calls the callback only while the processor node exists.\<close>

definition capture :: "real list \<Rightarrow> int \<Rightarrow> audio_state \<Rightarrow> audio_state" where
  "capture inputData now s = (if scriptProcessor s then onaudioprocess inputData now s else s)"

fun pushes :: "(real list \<times> int) list \<Rightarrow> audio_state \<Rightarrow> audio_state" where
  "pushes [] s = s"
| "pushes ((inputData, now) # rest) s = pushes rest (onaudioprocess inputData now s)"

definition frames_of :: "nat \<Rightarrow> (real list \<times> int) list \<Rightarrow> audio_frame list" where
  "frames_of rate xs = map (\<lambda>(inputData, now). \<lparr>data = inputData, timestamp = now, sampleRate = rate\<rparr>) xs"

definition newest :: "nat \<Rightarrow> 'a list \<Rightarrow> 'a list" where
  "newest n xs = drop (length xs - n) xs"

text \<open>
  \<^verbatim>\<open>startMicrophone\<close>; \<open>granted\<close> says whether \<^verbatim>\<open>getUserMedia\<close> resolves. The
  result is the \<^verbatim>\<open>success\<close> field. A missing audio context makes
  \<^verbatim>\<open>createMediaStreamSource\<close> throw after the stream was stored.
\<close>

definition startMicrophone :: "bool \<Rightarrow> audio_state \<Rightarrow> audio_state \<times> bool" where
  "startMicrophone granted s =
    (if mediaStream s then (s, True)
     else if \<not> granted then (s, False)
     else case audioContext s of
       None \<Rightarrow> (s\<lparr>mediaStream := True\<rparr>, False)
     | Some rate \<Rightarrow>
         (s\<lparr>mediaStream := True, analyser := True, scriptProcessor := True,
            isAudioRunning := True, audioBufferQueue := SharedQueue\<rparr>, True))"

definition stopMicrophone :: "audio_state \<Rightarrow> audio_state" where
  "stopMicrophone s =
    s\<lparr>mediaStream := False, scriptProcessor := False, analyser := False,
      isAudioRunning := False, audioBufferQueue := OwnQueue []\<rparr>"

section \<open>main.js: application state, microphone toggle, render tick\<close>

text \<open>
  The module-level state of the whole page: \<^verbatim>\<open>appState\<close> of main.js together with the
  module variables of audio.js, lipsync.js and animation.js.
\<close>

record app_state =
  isMicEnabled :: bool
  isAudioTestMode :: bool
  phonemeCategory :: jsval
  audio :: audio_state
  phonemeHistory :: "jsval list"
  animationState :: animation_state

definition onMicToggle :: "bool \<Rightarrow> bool \<Rightarrow> app_state \<Rightarrow> app_state \<times> bool" where
  "onMicToggle enabled granted s =
    (if enabled then
       (case startMicrophone granted (audio s) of
          (a, success) \<Rightarrow> (s\<lparr>audio := a, isMicEnabled := success\<rparr>, success))
     else (s\<lparr>audio := stopMicrophone (audio s), isMicEnabled := False\<rparr>, True))"

text \<open>
  The synchronous sprite work of one \<^verbatim>\<open>animate\<close> frame: the mouth update from
  \<^verbatim>\<open>appState.phonemeCategory\<close>, then the eye update. It runs whether or not the
  microphone is enabled.
\<close>

definition animate_sprites :: "real \<Rightarrow> app_state \<Rightarrow> app_state" where
  "animate_sprites rnd s =
    s\<lparr>animationState :=
        updateEyeSprite rnd (snd (updateMouthSprite (phonemeCategory s) (animationState s)))\<rparr>"

section \<open>main.js: the audio processor\<close>

text \<open>
  The closure state of \<^verbatim>\<open>createAudioProcessor\<close>, the array behind
  \<^verbatim>\<open>window.audioBufferQueue\<close>, and the frames handed to \<^verbatim>\<open>processAudioBuffer\<close>
  whose \<^verbatim>\<open>await\<close> has not resumed yet.
\<close>

record processor_state =
  lastProcessTime :: int
  isProcessing :: bool
  queue :: "audio_frame list option"
  in_flight :: "audio_frame list"

definition PROCESS_INTERVAL :: int where
  "PROCESS_INTERVAL = 50"

text \<open>
  The variant with throttle and guard: the synchronous part of \<^verbatim>\<open>processAudio\<close> up to
  the \<^verbatim>\<open>await\<close>, called when \<^verbatim>\<open>Date.now()\<close> reads \<open>now\<close>.
\<close>

definition processAudio_throttled :: "int \<Rightarrow> processor_state \<Rightarrow> processor_state" where
  "processAudio_throttled now p =
    (if now - lastProcessTime p < PROCESS_INTERVAL then p
     else if isProcessing p then p
     else case queue p of
       None \<Rightarrow> p
     | Some [] \<Rightarrow> p
     | Some (audioBuffer # rest) \<Rightarrow>
         p\<lparr>isProcessing := True, lastProcessTime := now, queue := Some rest,
           in_flight := in_flight p @ [audioBuffer]\<rparr>)"

text \<open>The rest of that call once the classification resolves: the \<^verbatim>\<open>finally\<close> block.\<close>

definition resume_throttled :: "processor_state \<Rightarrow> processor_state" where
  "resume_throttled p =
    (case in_flight p of
       [] \<Rightarrow> p
     | audioBuffer # rest \<Rightarrow> p\<lparr>in_flight := rest, isProcessing := False\<rparr>)"

text \<open>
  The variant of src/main.js: \<^verbatim>\<open>window.audioBufferQueue?.shift()\<close>, return if nothing
  came out, otherwise classify. It reads no clock and keeps no flag.
\<close>

definition processAudio :: "int \<Rightarrow> processor_state \<Rightarrow> processor_state" where
  "processAudio now p =
    (case queue p of
       None \<Rightarrow> p
     | Some [] \<Rightarrow> p
     | Some (audioBuffer # rest) \<Rightarrow> p\<lparr>queue := Some rest, in_flight := in_flight p @ [audioBuffer]\<rparr>)"

definition resume :: "processor_state \<Rightarrow> processor_state" where
  "resume p = (case in_flight p of [] \<Rightarrow> p | audioBuffer # rest \<Rightarrow> p\<lparr>in_flight := rest\<rparr>)"

text \<open>
  What happens to a processor over time: a render tick at a clock reading, a frame
  arriving from the capture side, or a pending classification resolving.
\<close>

datatype driver_event = Tick int | Arrive audio_frame | Resolved

definition arrive :: "audio_frame \<Rightarrow> processor_state \<Rightarrow> processor_state" where
  "arrive f p =
    (case queue p of
       None \<Rightarrow> p
     | Some q \<Rightarrow> (let pushed = q @ [f] in p\<lparr>queue := Some (if length pushed > 15 then tl pushed else pushed)\<rparr>))"

text \<open>
  Running a processor over events; the second component lists, oldest first, the clock
  readings of the ticks that started a dequeue-and-classify cycle.
\<close>

fun run_throttled :: "driver_event list \<Rightarrow> processor_state \<Rightarrow> int list \<Rightarrow> processor_state \<times> int list" where
  "run_throttled [] p started = (p, started)"
| "run_throttled (Tick now # es) p started =
     (let p' = processAudio_throttled now p
      in run_throttled es p' (if length (in_flight p') > length (in_flight p) then started @ [now] else started))"
| "run_throttled (Arrive f # es) p started = run_throttled es (arrive f p) started"
| "run_throttled (Resolved # es) p started = run_throttled es (resume_throttled p) started"

fun run_main :: "driver_event list \<Rightarrow> processor_state \<Rightarrow> int list \<Rightarrow> processor_state \<times> int list" where
  "run_main [] p started = (p, started)"
| "run_main (Tick now # es) p started =
     (let p' = processAudio now p
      in run_main es p' (if length (in_flight p') > length (in_flight p) then started @ [now] else started))"
| "run_main (Arrive f # es) p started = run_main es (arrive f p) started"
| "run_main (Resolved # es) p started = run_main es (resume p) started"

text \<open>Consecutive entries of a list of clock readings lie at least \<open>d\<close> apart.\<close>

fun spaced :: "int \<Rightarrow> int list \<Rightarrow> bool" where
  "spaced d [] = True"
| "spaced d [a] = True"
| "spaced d (a # b # rest) = (b - a \<ge> d \<and> spaced d (b # rest))"

text \<open>A running capture with an empty buffer, and the page state around it.\<close>

definition audio_running :: audio_state where
  "audio_running =
    \<lparr>audioContext = Some 16000, mediaStream = True, scriptProcessor = True, analyser = True,
     isAudioRunning = True, audioBuffers = [], audioBufferQueue = SharedQueue\<rparr>"

definition silence :: "int \<Rightarrow> audio_frame" where
  "silence t = \<lparr>data = [], timestamp = t, sampleRate = 16000\<rparr>"

definition processor0 :: "audio_frame list option \<Rightarrow> processor_state" where
  "processor0 q = \<lparr>lastProcessTime = 0, isProcessing = False, queue = q, in_flight = []\<rparr>"

text \<open>
  What the throttled processor maintains between events: the started cycles are spaced,
  \<^verbatim>\<open>lastProcessTime\<close> is the start of the latest one, at most one classification is
  pending, and \<^verbatim>\<open>isProcessing\<close> is set exactly while one is.
\<close>

definition throttle_inv :: "processor_state \<Rightarrow> int list \<Rightarrow> bool" where
  "throttle_inv p started =
    (spaced PROCESS_INTERVAL started \<and> (started \<noteq> [] \<longrightarrow> lastProcessTime p = last started) \<and>
     length (in_flight p) \<le> 1 \<and> (isProcessing p \<longleftrightarrow> in_flight p \<noteq> []))"

section \<open>Properties of the phoneme mapping and smoothing\<close>

lemmas lipsync_defs =
  getPhonemeCategory_def getPhonemeCategory_sf_def mapped_category_def phonemeChar_def
  PHONEME_MAP_get_def PHONEME_MAP_def object_prototype_names_def js_or_def labelled_def
  SMOOTHING_FACTOR_def Let_def





lemma history_after:
  "snd (getPhonemeCategory_sf sf rnd (Some e) h) =
     (let c = fst (getPhonemeCategory_sf sf rnd (Some e) h)
      in if length h \<ge> 10 then tl (h @ [c]) else h @ [c])"
  by (simp add: getPhonemeCategory_sf_def Let_def)

lemma history_absent: "getPhonemeCategory_sf sf rnd None h = (Str ''idle'', h)"
  by (simp add: getPhonemeCategory_sf_def)

lemma smoothing_zero_locks:
  "rnd \<le> 1 \<Longrightarrow> h \<noteq> [] \<Longrightarrow> truthy (last h) \<Longrightarrow>
   fst (getPhonemeCategory_sf 0 rnd (Some e) h) = last h"
  by (simp add: getPhonemeCategory_sf_def Let_def)

lemma smoothing_one_accepts:
  "0 < rnd \<Longrightarrow> fst (getPhonemeCategory_sf 1 rnd (Some e) h) = mapped_category e"
  by (simp add: getPhonemeCategory_sf_def Let_def)


text \<open>
  Claim C4 (history maintenance), as stated, fails for an absent event: the call returns
  \<open>idle\<close> before the history is touched, so nothing is appended.
\<close>
theorem history_append_absent_counterexample:
  "snd (getPhonemeCategory (1 / 2) None []) \<noteq> [] @ [fst (getPhonemeCategory (1 / 2) None [])]"
  by (simp add: lipsync_defs)

lemma newest_10:
  "length h \<le> 10 \<Longrightarrow> newest 10 (h @ [c]) = (if length h = 10 then tl (h @ [c]) else h @ [c])"
  by (cases h) (auto simp: newest_def drop_Suc)

text \<open>
  Claim C4, amended. A history of at most 10 entries has at most 10 entries after every
  call. A call with a present event appends the emitted category at the tail and, when
  the history already held 10 entries, removes the oldest one from the front; a call with
  an absent event returns \<open>idle\<close> and leaves the history as it was.
\<close>
theorem history_maintenance:
  assumes len: "length h \<le> 10"
  shows "length (snd (getPhonemeCategory rnd ph h)) \<le> 10 \<and>
   (case ph of
      None \<Rightarrow> getPhonemeCategory rnd ph h = (Str ''idle'', h)
    | Some e \<Rightarrow>
        snd (getPhonemeCategory rnd ph h) = newest 10 (h @ [fst (getPhonemeCategory rnd ph h)]) \<and>
        (length h < 10 \<longrightarrow>
           snd (getPhonemeCategory rnd ph h) = h @ [fst (getPhonemeCategory rnd ph h)]) \<and>
        (length h = 10 \<longrightarrow>
           snd (getPhonemeCategory rnd ph h) = tl h @ [fst (getPhonemeCategory rnd ph h)]))"
proof (cases ph)
  case None
  then show ?thesis using len by (simp add: getPhonemeCategory_def history_absent)
next
  case (Some e)
  let ?c = "fst (getPhonemeCategory rnd ph h)"
  have snd_eq: "snd (getPhonemeCategory rnd ph h) = (if length h \<ge> 10 then tl (h @ [?c]) else h @ [?c])"
    using Some by (simp add: getPhonemeCategory_def history_after Let_def)
  have "length h = 10 \<Longrightarrow> h \<noteq> []" by auto
  then show ?thesis using Some len snd_eq by (auto simp: newest_10)
qed

text \<open>Claim C4: the amended statement at the history \<open>[a]\<close>.\<close>
theorem history_maintenance_witness:
  "length [Str ''a''] \<le> 10 \<and>
   snd (getPhonemeCategory (1 / 2) (Some (labelled ''E'')) [Str ''a'']) = [Str ''a'', Str ''e''] \<and>
   snd (getPhonemeCategory (1 / 2) None [Str ''a'']) = [Str ''a'']"
  using history_maintenance [of "[Str ''a'']" "1 / 2" "Some (labelled ''E'')"]
    history_maintenance [of "[Str ''a'']" "1 / 2" None]
  by (simp add: lipsync_defs)




text \<open>
  Outside that statement: a label that names an inherited member of
  \<^verbatim>\<open>Object.prototype\<close> is found by the table lookup, so the \<^verbatim>\<open>|| 'closed'\<close>
  default does not apply and the member itself is returned and stored.
\<close>

lemma inherited_label_escapes:
  "getPhonemeCategory r (Some (labelled ''constructor'')) [] =
     (ProtoMember ''constructor'', [ProtoMember ''constructor''])"
  by (simp add: lipsync_defs)

section \<open>Properties of the mouth sprite update\<close>

lemma updateMouthSprite_same:
  "currentMouthType s = c \<Longrightarrow> updateMouthSprite c s = ([], s)"
  by (simp add: updateMouthSprite_def)

lemma updateMouthSprite_falsy:
  "\<not> truthy c \<Longrightarrow> updateMouthSprite c s = ([], s)"
  by (simp add: updateMouthSprite_def)

lemma updateMouthSprite_unknown:
  "truthy c \<Longrightarrow> currentMouthType s \<noteq> c \<Longrightarrow> Map_get (mouthSprites s) c = None \<Longrightarrow>
   updateMouthSprite c s = ([ConsoleWarn c], s)"
  by (simp add: updateMouthSprite_def)

lemma updateMouthSprite_known:
  "truthy c \<Longrightarrow> currentMouthType s \<noteq> c \<Longrightarrow> Map_get (mouthSprites s) c = Some d \<Longrightarrow>
   updateMouthSprite c s =
     (map (\<lambda>(type, d). SetVisible type (Str type = c)) (mouthSprites s),
      s\<lparr>mouthSprites := map (\<lambda>(type, d). (type, d\<lparr>visible := (Str type = c)\<rparr>)) (mouthSprites s),
        currentMouthType := c\<rparr>)"
  by (simp add: updateMouthSprite_def)

lemma writes_map: "visibility_writes (map (\<lambda>(type, d). SetVisible type (f type)) m) = map (\<lambda>(type, d). (type, f type)) m"
  by (induction m) (auto simp: visibility_writes_def)

text \<open>
  Claim C9 (viseme application idempotence). For every category \<open>X\<close> and state, a second
  call of \<^verbatim>\<open>updateMouthSprite\<close> with the same \<open>X\<close> writes no sprite visibility and
  leaves the state as the first call left it. When \<open>X\<close> is truthy, differs from the
  current mouth type and has a sprite, the first call makes one pass over the sprites
  that writes each visibility once (visible exactly for \<open>X\<close>), sets
  \<^verbatim>\<open>currentMouthType\<close> to \<open>X\<close>, and the second call then has no effect at all.
\<close>
theorem mouth_update_idempotent:
  "visibility_writes (fst (updateMouthSprite X (snd (updateMouthSprite X s)))) = [] \<and>
   snd (updateMouthSprite X (snd (updateMouthSprite X s))) = snd (updateMouthSprite X s) \<and>
   (truthy X \<and> currentMouthType s \<noteq> X \<and> Map_get (mouthSprites s) X \<noteq> None \<longrightarrow>
      visibility_writes (fst (updateMouthSprite X s)) = map (\<lambda>(type, d). (type, Str type = X)) (mouthSprites s) \<and>
      map fst (mouthSprites (snd (updateMouthSprite X s))) = map fst (mouthSprites s) \<and>
      (\<forall>(type, d) \<in> set (mouthSprites (snd (updateMouthSprite X s))). visible d = (Str type = X)) \<and>
      currentMouthType (snd (updateMouthSprite X s)) = X \<and>
      fst (updateMouthSprite X (snd (updateMouthSprite X s))) = [])"
proof -
  have second: "visibility_writes (fst (updateMouthSprite X (snd (updateMouthSprite X s)))) = [] \<and>
    snd (updateMouthSprite X (snd (updateMouthSprite X s))) = snd (updateMouthSprite X s)"
    by (auto simp: updateMouthSprite_def visibility_writes_def split: option.splits)
  have first: "visibility_writes (fst (updateMouthSprite X s)) = map (\<lambda>(type, d). (type, Str type = X)) (mouthSprites s) \<and>
      map fst (mouthSprites (snd (updateMouthSprite X s))) = map fst (mouthSprites s) \<and>
      (\<forall>(type, d) \<in> set (mouthSprites (snd (updateMouthSprite X s))). visible d = (Str type = X)) \<and>
      currentMouthType (snd (updateMouthSprite X s)) = X \<and>
      fst (updateMouthSprite X (snd (updateMouthSprite X s))) = []"
    if "truthy X" "currentMouthType s \<noteq> X" "Map_get (mouthSprites s) X = Some d" for d
  proof -
    note eq = updateMouthSprite_known [OF that]
    have "fst (updateMouthSprite X (snd (updateMouthSprite X s))) = []"
      by (simp add: eq updateMouthSprite_same)
    then show ?thesis
      by (auto simp: eq writes_map)
  qed
  show ?thesis using second first by auto
qed

lemma mouth_keys_init: "map fst (mouthSprites (initAnimation s)) = mouthTypes"
  by (simp add: initAnimation_def comp_def)

text \<open>Claim C9: the statement at the initialised state and the category \<open>a\<close>.\<close>
theorem mouth_update_idempotent_witness:
  "truthy (Str ''a'') \<and> currentMouthType (initAnimation (animationState0 0)) \<noteq> Str ''a'' \<and>
   Map_get (mouthSprites (initAnimation (animationState0 0))) (Str ''a'') \<noteq> None \<and>
   visibility_writes (fst (updateMouthSprite (Str ''a'') (initAnimation (animationState0 0)))) =
     [(''idle'', False), (''a'', True), (''e'', False), (''o'', False), (''u'', False),
      (''closed'', False), (''m'', False), (''f'', False)] \<and>
   currentMouthType (snd (updateMouthSprite (Str ''a'') (initAnimation (animationState0 0)))) = Str ''a'' \<and>
   fst (updateMouthSprite (Str ''a'') (snd (updateMouthSprite (Str ''a'') (initAnimation (animationState0 0))))) = []"
  using mouth_update_idempotent [of "Str ''a''" "initAnimation (animationState0 0)"]
  by (simp add: initAnimation_def animationState0_def Map_get_def mouthTypes_def)

text \<open>
  Claim C10 (unknown mouth type). With the eight mouth sprites in place, a call with a
  truthy category that differs from the current one and is none of the eight types
  returns the state unchanged: no visibility is written, \<^verbatim>\<open>currentMouthType\<close> keeps
  its value, and the only effect is the console warning.
\<close>
theorem unknown_mouth_type_ignored:
  "truthy c \<Longrightarrow> c \<noteq> currentMouthType s \<Longrightarrow> map fst (mouthSprites s) = mouthTypes \<Longrightarrow>
   c \<notin> Str ` set mouthTypes \<Longrightarrow>
   snd (updateMouthSprite c s) = s \<and> visibility_writes (fst (updateMouthSprite c s)) = [] \<and>
   fst (updateMouthSprite c s) = [ConsoleWarn c]"
proof -
  assume t: "truthy c" and ne: "c \<noteq> currentMouthType s"
    and keys: "map fst (mouthSprites s) = mouthTypes" and unk: "c \<notin> Str ` set mouthTypes"
  have "Map_get (mouthSprites s) c = None"
  proof (cases c)
    case (Str k)
    with unk have "k \<notin> set (map fst (mouthSprites s))" using keys by auto
    then have "map_of (mouthSprites s) k = None" by (simp add: map_of_eq_None_iff)
    with Str show ?thesis by (simp add: Map_get_def)
  qed (simp_all add: Map_get_def)
  with t ne have "updateMouthSprite c s = ([ConsoleWarn c], s)"
    by (simp add: updateMouthSprite_unknown)
  then show ?thesis by (simp add: visibility_writes_def)
qed

text \<open>Claim C10: the statement at the initialised state and the category \<open>smile\<close>.\<close>
theorem unknown_mouth_type_ignored_witness:
  "truthy (Str ''smile'') \<and> Str ''smile'' \<noteq> currentMouthType (initAnimation (animationState0 0)) \<and>
   map fst (mouthSprites (initAnimation (animationState0 0))) = mouthTypes \<and>
   Str ''smile'' \<notin> Str ` set mouthTypes \<and>
   snd (updateMouthSprite (Str ''smile'') (initAnimation (animationState0 0))) = initAnimation (animationState0 0)"
proof -
  have 1: "truthy (Str ''smile'')" by simp
  have 2: "Str ''smile'' \<noteq> currentMouthType (initAnimation (animationState0 0))"
    by (simp add: initAnimation_def animationState0_def)
  have 3: "map fst (mouthSprites (initAnimation (animationState0 0))) = mouthTypes"
    by (rule mouth_keys_init)
  have 4: "Str ''smile'' \<notin> Str ` set mouthTypes" by (auto simp: mouthTypes_def)
  show ?thesis using 1 2 3 4 unknown_mouth_type_ignored [OF 1 2 3 4] by simp
qed

section \<open>Properties of the blink machine\<close>




































text \<open>\<^verbatim>\<open>triggerBlink\<close> starts a blink at once, whatever the phase, and restarts both timers.\<close>

lemma triggerBlink_starts_blink:
  "isBlinking (triggerBlink s) \<and> blinkTimer (triggerBlink s) = 0 \<and>
   timeSinceLastBlink (triggerBlink s) = 0 \<and> nextBlinkTime (triggerBlink s) = nextBlinkTime s"
  by (simp add: triggerBlink_def)

section \<open>Properties of the frame buffer and the microphone toggle\<close>

lemma newest_snoc:
  assumes "length b \<le> n"
  shows "newest n (b @ [f]) = (if length (b @ [f]) > n then tl (b @ [f]) else b @ [f])"
proof (cases "length b = n")
  case True
  then have "length (b @ [f]) - n = Suc 0" by simp
  then have "newest n (b @ [f]) = drop (Suc 0) (b @ [f])" by (simp only: newest_def)
  also have "\<dots> = tl (b @ [f])" by (simp only: drop_Suc drop_0)
  finally have "newest n (b @ [f]) = tl (b @ [f])" .
  moreover have "length (b @ [f]) > n" using True by simp
  ultimately show ?thesis by (simp only: if_True)
next
  case False
  with assms show ?thesis by (simp add: newest_def)
qed

lemma newest_newest: "newest n (newest n b @ ys) = newest n (b @ ys)"
proof (cases "length b \<le> n")
  case True
  then show ?thesis by (simp add: newest_def)
next
  case False
  then have "length b + length ys - n = length ys + (length b - n)" by simp
  then have "drop (length b + length ys - n) (b @ ys) =
      drop (length ys) (drop (length b - n) (b @ ys))"
    by (simp only: drop_drop)
  also have "drop (length b - n) (b @ ys) = drop (length b - n) b @ ys" by simp
  finally show ?thesis using False by (simp add: newest_def)
qed

lemma length_newest: "length (newest n xs) = min n (length xs)"
  by (simp add: newest_def)

lemma onaudioprocess_buffer:
  assumes "audioContext s = Some rate" and "length (audioBuffers s) \<le> 15"
  shows "audioBuffers (onaudioprocess inputData now s) =
     newest 15 (audioBuffers s @ [\<lparr>data = inputData, timestamp = now, sampleRate = rate\<rparr>])"
  using assms by (simp add: onaudioprocess_def Let_def newest_snoc)

lemma onaudioprocess_context: "audioContext (onaudioprocess inputData now s) = audioContext s"
  by (simp add: onaudioprocess_def Let_def split: option.splits)

lemma pushes_buffer:
  assumes "audioContext s = Some rate" and "length (audioBuffers s) \<le> 15"
  shows "audioBuffers (pushes xs s) = newest 15 (audioBuffers s @ frames_of rate xs)"
  using assms
proof (induction xs arbitrary: s)
  case Nil
  then show ?case by (simp add: frames_of_def newest_def)
next
  case (Cons x xs)
  obtain inputData now where x: "x = (inputData, now)" by (cases x)
  let ?s' = "onaudioprocess inputData now s"
  let ?f = "\<lparr>data = inputData, timestamp = now, sampleRate = rate\<rparr>"
  have b: "audioBuffers ?s' = newest 15 (audioBuffers s @ [?f])"
    using Cons.prems by (rule onaudioprocess_buffer)
  then have l: "length (audioBuffers ?s') \<le> 15" by (simp add: length_newest)
  have c: "audioContext ?s' = Some rate" using Cons.prems by (simp add: onaudioprocess_context)
  have "audioBuffers (pushes xs ?s') = newest 15 (audioBuffers ?s' @ frames_of rate xs)"
    using c l by (rule Cons.IH)
  also have "\<dots> = newest 15 ((audioBuffers s @ [?f]) @ frames_of rate xs)"
    unfolding b by (rule newest_newest)
  finally show ?case by (simp add: x frames_of_def)
qed

text \<open>
  Claim C5 (frame buffer bound and FIFO). From a buffer of at most 15 frames, after any
  sequence of pushes by the capture callback the buffer holds at most 15 frames, namely
  the newest 15 of the old content followed by the pushed frames, in push order; once
  15 or more frames were pushed it holds exactly the 15 most recently pushed ones. A
  push into a full buffer drops exactly the oldest frame; a push into a buffer with room
  drops nothing.
\<close>
theorem frame_buffer_bound_fifo:
  assumes ctx: "audioContext s = Some rate" and inv: "length (audioBuffers s) \<le> 15"
  shows "length (audioBuffers (pushes xs s)) \<le> 15 \<and>
    audioBuffers (pushes xs s) = newest 15 (audioBuffers s @ frames_of rate xs) \<and>
    (15 \<le> length xs \<longrightarrow>
       audioBuffers (pushes xs s) = newest 15 (frames_of rate xs) \<and>
       length (audioBuffers (pushes xs s)) = 15) \<and>
    (length (audioBuffers s) = 15 \<longrightarrow>
       audioBuffers (onaudioprocess inputData now s) =
         tl (audioBuffers s) @ [\<lparr>data = inputData, timestamp = now, sampleRate = rate\<rparr>]) \<and>
    (length (audioBuffers s) < 15 \<longrightarrow>
       audioBuffers (onaudioprocess inputData now s) =
         audioBuffers s @ [\<lparr>data = inputData, timestamp = now, sampleRate = rate\<rparr>])"
proof -
  have eq: "audioBuffers (pushes xs s) = newest 15 (audioBuffers s @ frames_of rate xs)"
    using ctx inv by (rule pushes_buffer)
  then have len: "length (audioBuffers (pushes xs s)) \<le> 15" by (simp add: length_newest)
  have many: "audioBuffers (pushes xs s) = newest 15 (frames_of rate xs) \<and>
      length (audioBuffers (pushes xs s)) = 15" if "15 \<le> length xs"
  proof -
    have "length (frames_of rate xs) = length xs" by (simp add: frames_of_def)
    with that show ?thesis unfolding eq by (simp add: newest_def)
  qed
  have full: "audioBuffers (onaudioprocess inputData now s) =
      tl (audioBuffers s) @ [\<lparr>data = inputData, timestamp = now, sampleRate = rate\<rparr>]"
    if "length (audioBuffers s) = 15"
  proof -
    from that have "audioBuffers s \<noteq> []" by auto
    then show ?thesis using ctx that by (simp add: onaudioprocess_def Let_def)
  qed
  have room: "audioBuffers (onaudioprocess inputData now s) =
      audioBuffers s @ [\<lparr>data = inputData, timestamp = now, sampleRate = rate\<rparr>]"
    if "length (audioBuffers s) < 15"
    using ctx that by (simp add: onaudioprocess_def Let_def)
  from len eq many full room show ?thesis by blast
qed

text \<open>Claim C5: the statement for 17 pushes into the empty buffer.\<close>
theorem frame_buffer_bound_fifo_witness:
  "audioContext audio_running = Some 16000 \<and> length (audioBuffers audio_running) \<le> 15 \<and>
   map timestamp (audioBuffers (pushes (map (Pair []) [1, 2, 3, 4, 5, 6, 7, 8, 9, 10, 11, 12, 13, 14, 15, 16, 17])
      audio_running)) = [3, 4, 5, 6, 7, 8, 9, 10, 11, 12, 13, 14, 15, 16, 17]"
proof -
  have h1: "audioContext audio_running = Some 16000" by (simp add: audio_running_def)
  have h2: "length (audioBuffers audio_running) \<le> 15" by (simp add: audio_running_def)
  show ?thesis
    using h1 h2 frame_buffer_bound_fifo [OF h1 h2,
        of "map (Pair []) [1, 2, 3, 4, 5, 6, 7, 8, 9, 10, 11, 12, 13, 14, 15, 16, 17]"]
    by (simp add: newest_def frames_of_def audio_running_def)
qed

lemma mic_stop_effects:
  "window_queue (audio (fst (onMicToggle False granted s))) = Some [] \<and>
   \<not> scriptProcessor (audio (fst (onMicToggle False granted s))) \<and>
   \<not> isAudioRunning (audio (fst (onMicToggle False granted s))) \<and>
   \<not> isMicEnabled (fst (onMicToggle False granted s)) \<and>
   capture inputData now (audio (fst (onMicToggle False granted s))) = audio (fst (onMicToggle False granted s)) \<and>
   audioBuffers (audio (fst (onMicToggle False granted s))) = audioBuffers (audio s) \<and>
   animationState (fst (onMicToggle False granted s)) = animationState s \<and>
   phonemeCategory (fst (onMicToggle False granted s)) = phonemeCategory s \<and>
   phonemeHistory (fst (onMicToggle False granted s)) = phonemeHistory s"
  by (simp add: onMicToggle_def stopMicrophone_def window_queue_def capture_def)

lemma blink_runs_without_microphone:
  "animationState (animate_sprites rnd (fst (onMicToggle False granted s))) =
   animationState (animate_sprites rnd s)"
  by (simp add: animate_sprites_def onMicToggle_def)

text \<open>
  Claim C3 (pipeline stop postcondition). Disabling the microphone through
  \<^verbatim>\<open>onMicToggle(false)\<close> leaves \<^verbatim>\<open>window.audioBufferQueue\<close> empty, but the smoothing
  history is not reset: \<^verbatim>\<open>resetPhonemeHistory\<close> is never called, and the history
  \<open>[a]\<close> is still \<open>[a]\<close> afterwards. The frame held in \<^verbatim>\<open>audioBuffers\<close> is not
  dropped either and is back in the queue after the next start.
\<close>
theorem mic_stop_keeps_history:
  "phonemeHistory (fst (onMicToggle False True
      \<lparr>isMicEnabled = True, isAudioTestMode = False, phonemeCategory = Str ''a'',
       audio = audio_running\<lparr>audioBuffers := [silence 1]\<rparr>, phonemeHistory = [Str ''a''],
       animationState = initAnimation (animationState0 0)\<rparr>)) = [Str ''a''] \<and>
   resetPhonemeHistory [Str ''a''] = [] \<and>
   window_queue (audio (fst (onMicToggle False True
      \<lparr>isMicEnabled = True, isAudioTestMode = False, phonemeCategory = Str ''a'',
       audio = audio_running\<lparr>audioBuffers := [silence 1]\<rparr>, phonemeHistory = [Str ''a''],
       animationState = initAnimation (animationState0 0)\<rparr>))) = Some [] \<and>
   window_queue (audio (fst (onMicToggle True True (fst (onMicToggle False True
      \<lparr>isMicEnabled = True, isAudioTestMode = False, phonemeCategory = Str ''a'',
       audio = audio_running\<lparr>audioBuffers := [silence 1]\<rparr>, phonemeHistory = [Str ''a''],
       animationState = initAnimation (animationState0 0)\<rparr>))))) = Some [silence 1]"
  by (simp add: onMicToggle_def stopMicrophone_def startMicrophone_def window_queue_def
      resetPhonemeHistory_def audio_running_def)

section \<open>Properties of the audio processor\<close>

lemma spaced_snoc:
  "spaced d xs \<Longrightarrow> (xs \<noteq> [] \<longrightarrow> d \<le> now - last xs) \<Longrightarrow> spaced d (xs @ [now])"
  by (induction d xs rule: spaced.induct) auto

lemma processAudio_throttled_cases:
  "processAudio_throttled now p = p \<or>
   (PROCESS_INTERVAL \<le> now - lastProcessTime p \<and> \<not> isProcessing p \<and>
    (\<exists>audioBuffer rest. queue p = Some (audioBuffer # rest) \<and>
       processAudio_throttled now p =
         p\<lparr>isProcessing := True, lastProcessTime := now, queue := Some rest,
           in_flight := in_flight p @ [audioBuffer]\<rparr>))"
  by (auto simp: processAudio_throttled_def split: option.splits list.splits)

lemma throttle_inv_tick:
  assumes "throttle_inv p started"
  shows "throttle_inv (processAudio_throttled now p)
     (if length (in_flight (processAudio_throttled now p)) > length (in_flight p)
      then started @ [now] else started)"
  using processAudio_throttled_cases [of now p]
proof
  assume "processAudio_throttled now p = p"
  with assms show ?thesis by simp
next
  assume "PROCESS_INTERVAL \<le> now - lastProcessTime p \<and> \<not> isProcessing p \<and>
    (\<exists>audioBuffer rest. queue p = Some (audioBuffer # rest) \<and>
       processAudio_throttled now p =
         p\<lparr>isProcessing := True, lastProcessTime := now, queue := Some rest,
           in_flight := in_flight p @ [audioBuffer]\<rparr>)"
  then obtain audioBuffer rest where
    gap: "PROCESS_INTERVAL \<le> now - lastProcessTime p" and idle: "\<not> isProcessing p" and
    eq: "processAudio_throttled now p =
         p\<lparr>isProcessing := True, lastProcessTime := now, queue := Some rest,
           in_flight := in_flight p @ [audioBuffer]\<rparr>"
    by blast
  from assms idle have empty: "in_flight p = []" by (simp add: throttle_inv_def)
  have "spaced PROCESS_INTERVAL (started @ [now])"
    using assms gap by (intro spaced_snoc) (auto simp: throttle_inv_def)
  then show ?thesis by (simp add: eq empty throttle_inv_def)
qed

lemma throttle_inv_arrive: "throttle_inv p started \<Longrightarrow> throttle_inv (arrive f p) started"
  by (simp add: throttle_inv_def arrive_def Let_def split: option.splits)

lemma throttle_inv_resume: "throttle_inv p started \<Longrightarrow> throttle_inv (resume_throttled p) started"
  by (auto simp: throttle_inv_def resume_throttled_def split: list.splits)

lemma throttle_inv_run:
  "throttle_inv p started \<Longrightarrow>
   throttle_inv (fst (run_throttled es p started)) (snd (run_throttled es p started))"
proof (induction es p started rule: run_throttled.induct)
  case (1 p started)
  then show ?case by simp
next
  case (2 now es p started)
  then show ?case using throttle_inv_tick [of p started now] by (simp add: Let_def)
next
  case (3 f es p started)
  then show ?case by (simp add: throttle_inv_arrive)
next
  case (4 es p started)
  then show ?case by (simp add: throttle_inv_resume)
qed

lemma throttled_processor_spaced:
  "spaced PROCESS_INTERVAL (snd (run_throttled es (processor0 q) [])) \<and>
   length (in_flight (fst (run_throttled es (processor0 q) []))) \<le> 1"
proof -
  have "throttle_inv (processor0 q) []" by (simp add: throttle_inv_def processor0_def)
  then have "throttle_inv (fst (run_throttled es (processor0 q) [])) (snd (run_throttled es (processor0 q) []))"
    by (rule throttle_inv_run)
  then show ?thesis by (simp add: throttle_inv_def)
qed

lemma throttled_one_dequeue:
  "queue (processAudio_throttled now p) = queue p \<or>
   (\<exists>audioBuffer rest. queue p = Some (audioBuffer # rest) \<and> queue (processAudio_throttled now p) = Some rest)"
  using processAudio_throttled_cases [of now p] by auto

lemma throttled_start_needs_idle:
  "processAudio_throttled now p \<noteq> p \<Longrightarrow> \<not> isProcessing p \<and> PROCESS_INTERVAL \<le> now - lastProcessTime p"
  using processAudio_throttled_cases [of now p] by auto

text \<open>
  Claim C6 (driver throttle and re-entrancy guard). The processor of src/main.js starts a
  cycle on each of two ticks 16 ms apart when two frames are queued, so its cycle starts
  are not 50 ms apart; the throttled variant starts only the first of them.
\<close>
theorem unthrottled_processor_back_to_back:
  "snd (run_main [Tick 1000, Resolved, Tick 1016] (processor0 (Some [silence 1, silence 2])) []) = [1000, 1016] \<and>
   \<not> spaced PROCESS_INTERVAL (snd (run_main [Tick 1000, Resolved, Tick 1016]
        (processor0 (Some [silence 1, silence 2])) [])) \<and>
   snd (run_throttled [Tick 1000, Resolved, Tick 1016] (processor0 (Some [silence 1, silence 2])) []) = [1000]"
  by (simp add: processAudio_def processAudio_throttled_def resume_def resume_throttled_def
      processor0_def PROCESS_INTERVAL_def Let_def)

end
